theory Spec2Isabelle
  imports Complex_Main
begin

section \<open>Morse protocol decoder (pd.py): shallow embedding\<close>

text \<open>
  The decoder is three nested Python generators: \<open>decode_symbols\<close> (edges to
  symbols), \<open>decode_morse\<close> (symbols to letters) and \<open>decode\<close> (letters to words).
  Each generator is modelled by the function that performs one iteration of its loop
  on explicit state, returning what the iteration puts (annotations), what it yields,
  and either the next state or the Python exception that ended it.

  Conventions of the embedding:
  \<^item> Python \<open>float\<close> values (sample rate, durations, the time unit) are modelled by
    exact real numbers; \<open>round\<close> and \<open>int\<close> are modelled with Python's rounding rules
    (half to even, truncation towards zero).
  \<^item> Python \<open>str\<close> is \<open>string\<close>; the three non-ASCII table entries are held as their
    UTF-8 bytes. Only concatenation and emptiness of text are used by the decoder.
  \<^item> The formatted text of the two timing annotations is not rendered: the model keeps
    the numbers that the format strings receive.
  \<^item> \<open>None\<close> used as the flush token is \<open>None\<close> of an option type.
\<close>

subsection \<open>Exceptions and numeric helpers\<close>

datatype error = ZeroDivisionError | KeyError

text \<open>Python \<open>round(x)\<close>: nearest integer, ties to the even neighbour.\<close>

definition py_round :: "real \<Rightarrow> int" where
  "py_round x =
     (let f = \<lfloor>x\<rfloor>; r = x - of_int f
      in if r < 1 / 2 then f
         else if 1 / 2 < r then f + 1
         else if even f then f else f + 1)"

text \<open>Python \<open>int(x)\<close> on a float: truncation towards zero.\<close>

definition py_int :: "real \<Rightarrow> int" where
  "py_int x = (if 0 \<le> x then \<lfloor>x\<rfloor> else \<lceil>x\<rceil>)"

subsection \<open>\<open>decode_ditdah\<close> and \<open>encode_ditdah\<close>\<close>

text \<open>The two dictionary literals indexed inside the comprehensions.\<close>

definition ditdah_units :: "char \<rightharpoonup> int" where
  "ditdah_units = [CHR ''-'' \<mapsto> 3, CHR ''.'' \<mapsto> 1]"

definition ditdah_chars :: "int \<rightharpoonup> char" where
  "ditdah_chars = [1 \<mapsto> CHR ''.'', 3 \<mapsto> CHR ''-'']"

text \<open>A subscript on a missing key raises \<open>KeyError\<close> and ends the comprehension.\<close>

fun decode_ditdah :: "string \<Rightarrow> error + int list" where
  "decode_ditdah [] = Inr []"
| "decode_ditdah (c # s) =
     (case ditdah_units c of
        None \<Rightarrow> Inl KeyError
      | Some u \<Rightarrow> (case decode_ditdah s of Inl e \<Rightarrow> Inl e | Inr t \<Rightarrow> Inr (u # t)))"

fun encode_ditdah :: "int list \<Rightarrow> error + string" where
  "encode_ditdah [] = Inr []"
| "encode_ditdah (c # tpl) =
     (case ditdah_chars c of
        None \<Rightarrow> Inl KeyError
      | Some ch \<Rightarrow> (case encode_ditdah tpl of Inl e \<Rightarrow> Inl e | Inr s \<Rightarrow> Inr (ch # s)))"

subsection \<open>The tables \<open>alphabet\<close> and \<open>symbols\<close>\<close>

text \<open>The dictionary literal of ITU-R M.1677-1, in source order.\<close>

definition alphabet_literal :: "(string \<times> string) list" where
  "alphabet_literal =
   [(''.-'', ''a''), (''-...'', ''b''), (''-.-.'', ''c''), (''-..'', ''d''), (''.'', ''e''),
    (''..-..'', [CHR 0xC3, CHR 0xA9]),
    (''..-.'', ''f''), (''--.'', ''g''), (''....'', ''h''), (''..'', ''i''), (''.---'', ''j''),
    (''-.-'', ''k''), (''.-..'', ''l''), (''--'', ''m''), (''-.'', ''n''), (''---'', ''o''),
    (''.--.'', ''p''), (''--.-'', ''q''), (''.-.'', ''r''), (''...'', ''s''), (''-'', ''t''),
    (''..-'', ''u''), (''...-'', ''v''), (''.--'', ''w''), (''-..-'', ''x''), (''-.--'', ''y''),
    (''--..'', ''z''),
    (''.----'', ''1''), (''..---'', ''2''), (''...--'', ''3''), (''....-'', ''4''),
    (''.....'', ''5''), (''-....'', ''6''), (''--...'', ''7''), (''---..'', ''8''),
    (''----.'', ''9''), (''-----'', ''0''),
    (''.-.-.-'', ''.''), (''--..--'', '',''), (''---...'', '':''), (''..--..'', ''?''),
    (''.----.'', [CHR 0xE2, CHR 0x80, CHR 0x99]),
    (''-....-'', ''-''), (''-..-.'', ''/''), (''-.--.'', ''(''), (''-.--.-'', '')''),
    (''.-..-.'', [CHR 0xE2, CHR 0x80, CHR 0x9C, CHR '' '', CHR 0xE2, CHR 0x80, CHR 0x9D]),
    (''-...-'', ''=''), (''...-.'', ''UNDERSTOOD''), (''........'', ''ERROR''),
    (''.-.-.'', ''+''), (''.-...'', ''WAIT''), (''...-.-'', ''EOW''), (''-.-.-'', ''START''),
    (''.--.-.'', ''@'')]"

text \<open>
  \<open>alphabet = { decode_ditdah(k): v for k,v in alphabet.items() }\<close>: the keys are
  re-keyed in order; a later equal key would overwrite an earlier one.
\<close>

fun alphabet_items :: "(string \<times> string) list \<Rightarrow> error + (int list \<times> string) list" where
  "alphabet_items [] = Inr []"
| "alphabet_items ((k, v) # kvs) =
     (case decode_ditdah k of
        Inl e \<Rightarrow> Inl e
      | Inr t \<Rightarrow> (case alphabet_items kvs of Inl e \<Rightarrow> Inl e | Inr r \<Rightarrow> Inr ((t, v) # r)))"

definition alphabet :: "int list \<rightharpoonup> string" where
  "alphabet =
     (case alphabet_items alphabet_literal of
        Inl e \<Rightarrow> Map.empty
      | Inr kvs \<Rightarrow> map_of (rev kvs))"

text \<open>The keys of \<open>symbols\<close>: (level, time units). The printed values are unused.\<close>

definition symbols :: "(int \<times> int) \<rightharpoonup> string" where
  "symbols = [(1, 1) \<mapsto> ''*'', (1, 3) \<mapsto> ''==='', (0, 1) \<mapsto> ''_'',
              (0, 3) \<mapsto> ''__'', (0, 7) \<mapsto> ''___'']"

subsection \<open>Annotations\<close>

text \<open>
  \<open>self.put(ss, es, self.out_ann, [cls, [text]])\<close>. The payload of class 0 is the
  duration \<open>dt\<close>, of class 1 the pair \<open>(units, timeunit)\<close>; classes 3 and 4 carry text.
  The sample positions of letters and words are variables that start as \<open>None\<close>.
\<close>

datatype payload = Time real | Units real real | Text string

record annotation =
  ss :: "int option"
  es :: "int option"
  cls :: nat
  payload :: payload

subsection \<open>\<open>Decoder.decode_symbols\<close>\<close>

text \<open>
  What one call of \<open>self.wait\<close> in the loop hands back: the pin value, the sample
  position \<open>self.samplenum\<close>, and \<open>self.matched\<close> for the edge condition and the skip
  condition.
\<close>

record wait_result =
  val :: int
  samplenum :: int
  matched0 :: bool
  matched1 :: bool

record symbols_state =
  samplerate :: real
  timeunit :: real
  prevtime :: int

type_synonym symbol_item = "(int \<times> int \<times> (int \<times> int)) option"

text \<open>The state before the loop: the sample rate defaults to 1.0, and the reference
  point is the position of the first rising edge.\<close>

definition decode_symbols_init :: "real option \<Rightarrow> real \<Rightarrow> int \<Rightarrow> symbols_state" where
  "decode_symbols_init rate unit_guess first_rise =
     \<lparr>samplerate = (case rate of None \<Rightarrow> 1 | Some r \<Rightarrow> r),
      timeunit = unit_guess,
      prevtime = first_rise\<rparr>"

text \<open>The skip count handed to \<open>self.wait\<close> at the top of the loop.\<close>

definition timeout_samples :: "symbols_state \<Rightarrow> int" where
  "timeout_samples st = py_int (5 * samplerate st * timeunit st)"

text \<open>
  One iteration of \<open>while True\<close>, given what \<open>self.wait\<close> returned. The result is
  the annotations put, the items yielded, and the next state or the exception raised.
  Both divisions before the timeout test raise on a zero divisor, as does the division
  by \<open>iunits\<close> after the yield. The local \<open>error\<close> is computed and never read; it
  is left out.
\<close>

definition decode_symbols_step ::
  "symbols_state \<Rightarrow> wait_result \<Rightarrow> annotation list \<times> symbol_item list \<times> (error + symbols_state)"
where
  "decode_symbols_step st w =
     (let pval = 1 - val w;
          curtime = samplenum w
      in if samplerate st = 0 then ([], [], Inl ZeroDivisionError)
         else
           let dt = of_int (curtime - prevtime st) / samplerate st
           in if timeunit st = 0 then ([], [], Inl ZeroDivisionError)
              else
                let units = dt / timeunit st;
                    iunits = py_round units;
                    symbol = (pval, iunits)
                in if matched1 w then ([], [None], Inr st)
                   else
                     let anns =
                           [\<lparr>ss = Some (prevtime st), es = Some curtime, cls = 0, payload = Time dt\<rparr>,
                            \<lparr>ss = Some (prevtime st), es = Some curtime, cls = 1,
                             payload = Units units (timeunit st)\<rparr>];
                         ys = (if symbol \<in> dom symbols
                               then [Some (prevtime st, curtime, symbol)] else [])
                     in if iunits = 0 then (anns, ys, Inl ZeroDivisionError)
                        else
                          let thisunit = dt / of_int iunits
                          in (anns, ys,
                              Inr (st\<lparr>prevtime := curtime,
                                      timeunit := timeunit st
                                        + (thisunit - timeunit st) * (2 / 100) * of_int iunits\<rparr>)))"

subsection \<open>\<open>Decoder.decode_morse\<close>\<close>

record morse_state =
  sequence :: "int list"
  s0 :: "int option"
  s1 :: "int option"

type_synonym letter_item = "(int option \<times> int option \<times> string) option"

definition decode_morse_init :: morse_state where
  "decode_morse_init = \<lparr>sequence = [], s0 = None, s1 = None\<rparr>"

text \<open>
  \<open>alphabet.get(sequence, encode_ditdah(sequence))\<close>: the default argument is
  evaluated before the lookup, so its \<open>KeyError\<close> is raised whatever the table holds.
\<close>

definition resolve :: "int list \<Rightarrow> error + string" where
  "resolve sq =
     (case encode_ditdah sq of
        Inl e \<Rightarrow> Inl e
      | Inr dflt \<Rightarrow> Inr (case alphabet sq of None \<Rightarrow> dflt | Some v \<Rightarrow> v))"

text \<open>One iteration of \<open>for item in self.decode_symbols()\<close>.\<close>

definition decode_morse_step ::
  "morse_state \<Rightarrow> symbol_item \<Rightarrow> letter_item list \<times> (error + morse_state)"
where
  "decode_morse_step st item =
     (let (st1, do_yield) =
            (case item of
               Some (t0, t1, (sval, sunits)) \<Rightarrow>
                 if sval = 1
                 then (st\<lparr>s0 := (if s0 st = None then Some t0 else s0 st),
                          s1 := Some t1,
                          sequence := sequence st @ [sunits]\<rparr>, False)
                 else (st, 3 \<le> sunits)
             | None \<Rightarrow> (st, True));
          tail = (if item = None then [None] else [])
      in if do_yield \<and> sequence st1 \<noteq> []
         then (case resolve (sequence st1) of
                 Inl e \<Rightarrow> ([], Inl e)
               | Inr letter \<Rightarrow>
                   (Some (s0 st1, s1 st1, letter) # tail,
                    Inr (st1\<lparr>sequence := [], s0 := None, s1 := None\<rparr>)))
         else (tail, Inr st1))"

fun decode_morse_run ::
  "morse_state \<Rightarrow> symbol_item list \<Rightarrow> letter_item list \<times> (error + morse_state)"
where
  "decode_morse_run st [] = ([], Inr st)"
| "decode_morse_run st (item # items) =
     (case decode_morse_step st item of
        (ls, Inl e) \<Rightarrow> (ls, Inl e)
      | (ls, Inr st') \<Rightarrow>
          (case decode_morse_run st' items of (ls', r) \<Rightarrow> (ls @ ls', r)))"

subsection \<open>\<open>Decoder.decode\<close>\<close>

record word_state =
  word_s0 :: "int option"
  word_s1 :: "int option"
  word :: string

definition decode_init :: word_state where
  "decode_init = \<lparr>word_s0 = None, word_s1 = None, word = []\<rparr>"

text \<open>One iteration of \<open>for item in self.decode_morse()\<close>.\<close>

definition decode_step :: "word_state \<Rightarrow> letter_item \<Rightarrow> annotation list \<times> word_state" where
  "decode_step st item =
     (case item of
        Some (t0, t1, letter) \<Rightarrow>
          ([\<lparr>ss = t0, es = t1, cls = 3, payload = Text letter\<rparr>],
           st\<lparr>word_s0 := (if word_s0 st = None then t0 else word_s0 st),
              word_s1 := t1,
              word := word st @ letter\<rparr>)
      | None \<Rightarrow>
          if word st \<noteq> []
          then ([\<lparr>ss = word_s0 st, es = word_s1 st, cls = 4, payload = Text (word st)\<rparr>],
                st\<lparr>word := [], word_s0 := None, word_s1 := None\<rparr>)
          else ([], st))"

fun decode_run :: "word_state \<Rightarrow> letter_item list \<Rightarrow> annotation list \<times> word_state" where
  "decode_run st [] = ([], st)"
| "decode_run st (item # items) =
     (case decode_step st item of
        (anns, st') \<Rightarrow> (case decode_run st' items of (anns', st'') \<Rightarrow> (anns @ anns', st'')))"

subsection \<open>The generators run together\<close>

text \<open>
  The loop of \<open>decode_symbols\<close> over the successive results of \<open>self.wait\<close>,
  collecting what it yields. An exception ends the generator.
\<close>

fun decode_symbols_run ::
  "symbols_state \<Rightarrow> wait_result list \<Rightarrow> symbol_item list \<times> (error + symbols_state)"
where
  "decode_symbols_run st [] = ([], Inr st)"
| "decode_symbols_run st (w # ws) =
     (case decode_symbols_step st w of
        (anns, ys, Inl e) \<Rightarrow> (ys, Inl e)
      | (anns, ys, Inr st') \<Rightarrow>
          (case decode_symbols_run st' ws of (ys', r) \<Rightarrow> (ys @ ys', r)))"

text \<open>
  \<open>decode\<close> drives \<open>decode_morse\<close>, which drives \<open>decode_symbols\<close>: an item yielded
  upstream is consumed downstream before the upstream generator resumes. One pass of
  the innermost loop therefore puts the timing annotations, hands the yielded symbol
  through both groupers, and only then reaches the division by \<open>iunits\<close>.
\<close>

type_synonym decoder_state = "symbols_state \<times> morse_state \<times> word_state"

definition decode_iter ::
  "decoder_state \<Rightarrow> wait_result \<Rightarrow> annotation list \<times> (error + decoder_state)"
where
  "decode_iter s w =
     (case s of (cst, mst, wst) \<Rightarrow>
        (case decode_symbols_step cst w of (anns, ys, cr) \<Rightarrow>
           (case decode_morse_run mst ys of (ls, mr) \<Rightarrow>
              (case decode_run wst ls of (wanns, wst') \<Rightarrow>
                 (anns @ wanns,
                  case mr of
                    Inl e \<Rightarrow> Inl e
                  | Inr mst' \<Rightarrow>
                      (case cr of Inl e \<Rightarrow> Inl e | Inr cst' \<Rightarrow> Inr (cst', mst', wst')))))))"

fun decode_loop ::
  "decoder_state \<Rightarrow> wait_result list \<Rightarrow> annotation list \<times> (error + decoder_state)"
where
  "decode_loop s [] = ([], Inr s)"
| "decode_loop s (w # ws) =
     (case decode_iter s w of
        (anns, Inl e) \<Rightarrow> (anns, Inl e)
      | (anns, Inr s') \<Rightarrow> (case decode_loop s' ws of (anns', r) \<Rightarrow> (anns @ anns', r)))"

text \<open>The two groupers alone, fed a stream of symbol items.\<close>

definition group_run ::
  "morse_state \<Rightarrow> word_state \<Rightarrow> symbol_item list
     \<Rightarrow> annotation list \<times> (error + morse_state) \<times> word_state"
where
  "group_run mst wst items =
     (case decode_morse_run mst items of (ls, mr) \<Rightarrow>
        (case decode_run wst ls of (anns, wst') \<Rightarrow> (anns, mr, wst')))"

subsection \<open>Vocabulary for the properties\<close>

text \<open>
  The local variables of one edge-terminated pass of \<open>decode_symbols\<close>: \<open>dt\<close>,
  \<open>units\<close>, \<open>iunits\<close>, the two annotations, the conditional yield, and the state
  after \<open>prevtime = curtime\<close> and the adaptation of \<open>timeunit\<close>.
\<close>

definition interval_dt :: "symbols_state \<Rightarrow> wait_result \<Rightarrow> real" where
  "interval_dt st w = of_int (samplenum w - prevtime st) / samplerate st"

definition interval_units :: "symbols_state \<Rightarrow> wait_result \<Rightarrow> real" where
  "interval_units st w = interval_dt st w / timeunit st"

definition interval_iunits :: "symbols_state \<Rightarrow> wait_result \<Rightarrow> int" where
  "interval_iunits st w = py_round (interval_units st w)"

definition interval_anns :: "symbols_state \<Rightarrow> wait_result \<Rightarrow> annotation list" where
  "interval_anns st w =
     [\<lparr>ss = Some (prevtime st), es = Some (samplenum w), cls = 0,
       payload = Time (interval_dt st w)\<rparr>,
      \<lparr>ss = Some (prevtime st), es = Some (samplenum w), cls = 1,
       payload = Units (interval_units st w) (timeunit st)\<rparr>]"

definition interval_yield :: "symbols_state \<Rightarrow> wait_result \<Rightarrow> symbol_item list" where
  "interval_yield st w =
     (if (1 - val w, interval_iunits st w) \<in> {(1, 1), (1, 3), (0, 1), (0, 3), (0, 7)}
      then [Some (prevtime st, samplenum w, (1 - val w, interval_iunits st w))] else [])"

definition adapted :: "symbols_state \<Rightarrow> wait_result \<Rightarrow> symbols_state" where
  "adapted st w =
     st\<lparr>prevtime := samplenum w,
        timeunit := timeunit st
          + (interval_dt st w / of_int (interval_iunits st w) - timeunit st)
            * (2 / 100) * of_int (interval_iunits st w)\<rparr>"

text \<open>
  Modelled from the spec: the host's \<open>self.wait\<close>, which is not part of the decoder.
  A wait entered at sample position \<open>pos\<close> with skip count \<open>n\<close> blocks until an edge
  occurs or \<open>n\<close> samples have elapsed, whichever is first, and reports which of the
  two occurred and the sample position reached.
\<close>

definition wait_returns :: "int \<Rightarrow> int \<Rightarrow> wait_result \<Rightarrow> bool" where
  "wait_returns pos n w \<longleftrightarrow>
     pos \<le> samplenum w \<and> samplenum w \<le> pos + n \<and>
     (matched0 w \<or> matched1 w) \<and> (matched1 w \<longleftrightarrow> samplenum w = pos + n)"

text \<open>
  A run of \<open>decode_symbols\<close> against that host: every wait is entered at the position
  the previous one returned, with the skip count computed from the current time unit,
  and that count is positive.
\<close>

fun host_trace :: "symbols_state \<Rightarrow> int \<Rightarrow> wait_result list \<Rightarrow> bool" where
  "host_trace st pos [] = True"
| "host_trace st pos (w # ws) =
     (0 < timeout_samples st \<and> wait_returns pos (timeout_samples st) w \<and>
      (case snd (snd (decode_symbols_step st w)) of
         Inl e \<Rightarrow> True
       | Inr st' \<Rightarrow> host_trace st' (samplenum w) ws))"

text \<open>
  A stream in which every symbol of seven units directly follows a flush token; the
  flag says whether the item before the stream was a flush token.
\<close>

fun flush_guarded :: "bool \<Rightarrow> symbol_item list \<Rightarrow> bool" where
  "flush_guarded b [] = True"
| "flush_guarded b (None # xs) = flush_guarded True xs"
| "flush_guarded b (Some (t0, t1, symbol) # xs) =
     ((symbol = (0, 7) \<longrightarrow> b) \<and> flush_guarded False xs)"

text \<open>
  The items of one letter: marks of one or three units and spaces shorter than three
  units. \<open>body_units\<close> is the dit/dah tuple such a stretch accumulates.
\<close>

definition letter_body :: "symbol_item list \<Rightarrow> bool" where
  "letter_body items \<longleftrightarrow>
     (\<forall>item \<in> set items.
        case item of
          None \<Rightarrow> False
        | Some (t0, t1, (sval, sunits)) \<Rightarrow>
            if sval = 1 then sunits = 1 \<or> sunits = 3 else sunits < 3)"

fun body_units :: "symbol_item list \<Rightarrow> int list" where
  "body_units [] = []"
| "body_units (None # items) = body_units items"
| "body_units (Some (t0, t1, (sval, sunits)) # items) =
     (if sval = 1 then sunits # body_units items else body_units items)"

text \<open>The literal rendering of a dit/dah tuple: 1 as a dot, 3 as a dash.\<close>

definition dots_dashes :: "int list \<Rightarrow> string" where
  "dots_dashes sq = map (\<lambda>u. if u = 1 then CHR ''.'' else CHR ''-'') sq"

text \<open>
  An item that \<open>decode_symbols\<close> can yield: the flush token, or a symbol that is a
  key of \<open>symbols\<close>. An item that is no mark: the flush token or a symbol whose level
  is not 1.
\<close>

definition classified :: "symbol_item \<Rightarrow> bool" where
  "classified item =
     (case item of None \<Rightarrow> True | Some (t0, t1, symbol) \<Rightarrow> symbol \<in> dom symbols)"

definition no_mark :: "symbol_item \<Rightarrow> bool" where
  "no_mark item =
     (case item of None \<Rightarrow> True | Some (t0, t1, (sval, sunits)) \<Rightarrow> sval \<noteq> 1)"

text \<open>
  An item that marks a word gap: the flush token, or the inter-word space symbol (0,7).
\<close>

definition word_gap :: "symbol_item \<Rightarrow> bool" where
  "word_gap item =
     (case item of None \<Rightarrow> True | Some (t0, t1, symbol) \<Rightarrow> symbol = (0, 7))"

section \<open>Properties\<close>

subsection \<open>Rounding and truncation\<close>

lemma py_round_le: "x \<le> of_int k \<Longrightarrow> py_round x \<le> k"
  unfolding py_round_def Let_def
  by (auto simp: floor_le_iff le_floor_iff)

lemma py_int_pos: "0 < py_int x \<Longrightarrow> of_int (py_int x) \<le> x \<and> 0 < x"
  unfolding py_int_def by (auto split: if_splits)

lemma timeout_samples_nonzero:
  "0 < timeout_samples st \<Longrightarrow> samplerate st \<noteq> 0 \<and> timeunit st \<noteq> 0"
  using py_int_pos [of "5 * samplerate st * timeunit st"] by (auto simp: timeout_samples_def)

subsection \<open>One pass of \<open>decode_symbols\<close>\<close>

lemma dom_symbols: "dom symbols = {(1, 1), (1, 3), (0, 1), (0, 3), (0, 7)}"
  by (auto simp: symbols_def split: if_splits)

lemma timeout_step:
  "samplerate st \<noteq> 0 \<Longrightarrow> timeunit st \<noteq> 0 \<Longrightarrow> matched1 w \<Longrightarrow>
     decode_symbols_step st w = ([], [None], Inr st)"
  by (simp add: decode_symbols_step_def Let_def)

lemma edge_step:
  assumes "samplerate st \<noteq> 0" "timeunit st \<noteq> 0" "\<not> matched1 w"
  shows "decode_symbols_step st w =
           (interval_anns st w, interval_yield st w,
            if interval_iunits st w = 0 then Inl ZeroDivisionError else Inr (adapted st w))"
  using assms
  unfolding decode_symbols_step_def interval_anns_def interval_yield_def adapted_def
    interval_iunits_def interval_units_def interval_dt_def Let_def dom_symbols
  by simp

text \<open>
  C3. For every edge-terminated interval (the pass that is not the timeout pass, with
  a non-zero sample rate and time unit so that \<open>dt\<close> and \<open>units\<close> exist), the classifier
  yields the symbol \<open>(pval, iunits)\<close> if and only if it is one of (1,1), (1,3), (0,1),
  (0,3), (0,7), and yields nothing otherwise; in both cases the raw-duration and the
  unit-duration annotation are put for the interval.
\<close>

theorem symbol_forwarded_iff_recognized:
  assumes "samplerate st \<noteq> 0" and "timeunit st \<noteq> 0" and "\<not> matched1 w"
  shows "fst (decode_symbols_step st w) = interval_anns st w \<and>
         fst (snd (decode_symbols_step st w)) =
           (if (1 - val w, interval_iunits st w) \<in> {(1, 1), (1, 3), (0, 1), (0, 3), (0, 7)}
            then [Some (prevtime st, samplenum w, (1 - val w, interval_iunits st w))]
            else [])"
  using edge_step [OF assms] by (simp add: interval_yield_def)

theorem symbol_forwarded_iff_recognized_witness:
  "fst (decode_symbols_step \<lparr>samplerate = 1, timeunit = 4, prevtime = 0\<rparr>
          \<lparr>val = 0, samplenum = 8, matched0 = True, matched1 = False\<rparr>) =
     [\<lparr>ss = Some 0, es = Some 8, cls = 0, payload = Time 8\<rparr>,
      \<lparr>ss = Some 0, es = Some 8, cls = 1, payload = Units 2 4\<rparr>] \<and>
   fst (snd (decode_symbols_step \<lparr>samplerate = 1, timeunit = 4, prevtime = 0\<rparr>
          \<lparr>val = 0, samplenum = 8, matched0 = True, matched1 = False\<rparr>)) = [] \<and>
   fst (snd (decode_symbols_step \<lparr>samplerate = 1, timeunit = 4, prevtime = 0\<rparr>
          \<lparr>val = 0, samplenum = 12, matched0 = True, matched1 = False\<rparr>)) =
     [Some (0, 12, (1, 3))]"
  using symbol_forwarded_iff_recognized
          [of "\<lparr>samplerate = 1, timeunit = 4, prevtime = 0\<rparr>"
              "\<lparr>val = 0, samplenum = 8, matched0 = True, matched1 = False\<rparr>"]
        symbol_forwarded_iff_recognized
          [of "\<lparr>samplerate = 1, timeunit = 4, prevtime = 0\<rparr>"
              "\<lparr>val = 0, samplenum = 12, matched0 = True, matched1 = False\<rparr>"]
  by (simp add: interval_anns_def interval_iunits_def interval_units_def interval_dt_def
        py_round_def Let_def)

text \<open>
  C9. On the timeout pass (the skip condition matched, with a non-zero sample rate and
  time unit so that the pass reaches the test), the classifier yields exactly one flush
  token, puts no annotation, and leaves its state as it was: neither \<open>prevtime\<close> nor
  \<open>timeunit\<close> changes.
\<close>

theorem timeout_yields_one_flush_only:
  assumes "samplerate st \<noteq> 0" and "timeunit st \<noteq> 0" and "matched1 w"
  shows "decode_symbols_step st w = ([], [None], Inr st)"
  using assms by (simp add: decode_symbols_step_def Let_def)

theorem timeout_yields_one_flush_only_witness:
  "decode_symbols_step \<lparr>samplerate = 1000, timeunit = 1 / 10, prevtime = 40\<rparr>
     \<lparr>val = 0, samplenum = 540, matched0 = False, matched1 = True\<rparr> =
   ([], [None], Inr \<lparr>samplerate = 1000, timeunit = 1 / 10, prevtime = 40\<rparr>)"
  using timeout_yields_one_flush_only
          [of "\<lparr>samplerate = 1000, timeunit = 1 / 10, prevtime = 40\<rparr>"
              "\<lparr>val = 0, samplenum = 540, matched0 = False, matched1 = True\<rparr>"]
  by simp

text \<open>
  C1. The claim that the rounded unit count is at least 1 for every positive \<open>dt\<close> and
  positive time unit fails in the code, which has no lower bound on \<open>round(units)\<close>.
  With the sample rate defaulted to 1, a time unit of 4 samples and an edge one sample
  after the reference point, \<open>dt = 1\<close>, \<open>units = 1/4\<close>, \<open>iunits = 0\<close>, and the pass
  ends in \<open>ZeroDivisionError\<close> at \<open>dt / iunits\<close>.
\<close>

theorem short_interval_rounds_to_zero:
  "0 < interval_dt (decode_symbols_init None 4 0)
         \<lparr>val = 1, samplenum = 1, matched0 = True, matched1 = False\<rparr> \<and>
   0 < timeunit (decode_symbols_init None 4 0) \<and>
   interval_iunits (decode_symbols_init None 4 0)
         \<lparr>val = 1, samplenum = 1, matched0 = True, matched1 = False\<rparr> = 0 \<and>
   decode_symbols_step (decode_symbols_init None 4 0)
         \<lparr>val = 1, samplenum = 1, matched0 = True, matched1 = False\<rparr> =
     ([\<lparr>ss = Some 0, es = Some 1, cls = 0, payload = Time 1\<rparr>,
       \<lparr>ss = Some 0, es = Some 1, cls = 1, payload = Units (1 / 4) 4\<rparr>],
      [], Inl ZeroDivisionError)"
  by (simp add: decode_symbols_init_def decode_symbols_step_def interval_iunits_def
        interval_units_def interval_dt_def py_round_def Let_def dom_symbols)

text \<open>
  For every edge-terminated interval whose rounded unit count is not zero, the pass
  ends with the reference point advanced and the time unit replaced by
  \<open>old + (dt / iunits - old) * 0.02 * iunits\<close>; the timeout pass leaves it alone.
\<close>

lemma timeunit_adapted:
  assumes "samplerate st \<noteq> 0" and "timeunit st \<noteq> 0"
  shows "\<not> matched1 w \<Longrightarrow> interval_iunits st w \<noteq> 0 \<Longrightarrow>
           \<exists>st'. snd (snd (decode_symbols_step st w)) = Inr st' \<and>
             timeunit st' = timeunit st
               + (interval_dt st w / of_int (interval_iunits st w) - timeunit st)
                 * (2 / 100) * of_int (interval_iunits st w)"
    and "matched1 w \<Longrightarrow> snd (snd (decode_symbols_step st w)) = Inr st"
  using edge_step [OF assms] timeout_step [OF assms] by (simp_all add: adapted_def)

text \<open>
  C8. The claim that the time unit is updated by the formula after every
  edge-terminated interval fails where the rounded unit count is 0: with a sample rate
  of 1000, a time unit of 1/8 s and an edge 10 samples after the reference point,
  \<open>dt = 1/100\<close>, \<open>iunits = 0\<close>, and the pass raises \<open>ZeroDivisionError\<close> at
  \<open>dt / iunits\<close> instead of updating the time unit.
\<close>

theorem short_interval_update_raises:
  "\<not> matched1 \<lparr>val = 1, samplenum = 10, matched0 = True, matched1 = False\<rparr> \<and>
   snd (snd (decode_symbols_step \<lparr>samplerate = 1000, timeunit = 1 / 8, prevtime = 0\<rparr>
               \<lparr>val = 1, samplenum = 10, matched0 = True, matched1 = False\<rparr>)) =
     Inl ZeroDivisionError"
  by (simp add: decode_symbols_step_def py_round_def Let_def)

subsection \<open>The timeout precedes every inter-word space\<close>

lemma edge_before_timeout_units:
  assumes n: "0 < timeout_samples st"
    and w: "wait_returns (prevtime st) (timeout_samples st) w"
  shows "interval_iunits st w \<le> 5"
proof -
  let ?p = "5 * samplerate st * timeunit st"
  from n have p: "of_int (timeout_samples st) \<le> ?p" "0 < ?p"
    using py_int_pos [of ?p] by (simp_all add: timeout_samples_def)
  from w have "samplenum w - prevtime st \<le> timeout_samples st"
    by (simp add: wait_returns_def)
  then have "of_int (samplenum w - prevtime st) \<le> (of_int (timeout_samples st) :: real)"
    by (simp only: of_int_le_iff)
  with p have d: "of_int (samplenum w - prevtime st) \<le> 5 * (samplerate st * timeunit st)"
    by (simp add: mult.assoc)
  from p have pos: "0 < samplerate st * timeunit st" by (simp add: mult.assoc)
  have "of_int (samplenum w - prevtime st) / (samplerate st * timeunit st) \<le> 5"
    using d pos by (simp add: pos_divide_le_eq)
  then have "interval_units st w \<le> of_int 5"
    by (simp add: interval_units_def interval_dt_def)
  then show ?thesis unfolding interval_iunits_def by (rule py_round_le)
qed

lemma flush_guarded_split:
  "flush_guarded b (pre @ Some (t0, t1, (0, 7)) # post) \<Longrightarrow>
     (pre = [] \<longrightarrow> b) \<and> (pre \<noteq> [] \<longrightarrow> last pre = None)"
proof (induction pre arbitrary: b)
  case Nil
  then show ?case by simp
next
  case (Cons x pre)
  show ?case
  proof (cases x)
    case None
    with Cons.prems have "flush_guarded True (pre @ Some (t0, t1, (0, 7)) # post)" by simp
    from Cons.IH [OF this] None show ?thesis by simp
  next
    case (Some y)
    with Cons.prems have "flush_guarded False (pre @ Some (t0, t1, (0, 7)) # post)"
      by (cases y) simp
    from Cons.IH [OF this] show ?thesis by simp
  qed
qed

text \<open>
  The invariant of the run: either no wait has returned since the reference point was
  set, or the item yielded last was a flush token.
\<close>

lemma run_flush_guarded:
  "host_trace st pos ws \<Longrightarrow> pos = prevtime st \<or> b \<Longrightarrow>
     flush_guarded b (fst (decode_symbols_run st ws))"
proof (induction ws arbitrary: st pos b)
  case Nil
  then show ?case by simp
next
  case (Cons w ws)
  from Cons.prems have n: "0 < timeout_samples st"
    and wr: "wait_returns pos (timeout_samples st) w" by simp_all
  from n have nz: "samplerate st \<noteq> 0" "timeunit st \<noteq> 0"
    using timeout_samples_nonzero by blast+
  show ?case
  proof (cases "matched1 w")
    case True
    with nz have step: "decode_symbols_step st w = ([], [None], Inr st)"
      by (rule timeout_step)
    with Cons.prems have "host_trace st (samplenum w) ws" by simp
    then have "flush_guarded True (fst (decode_symbols_run st ws))"
      by (rule Cons.IH) simp
    with step show ?thesis by (cases "decode_symbols_run st ws") simp
  next
    case False
    note step = edge_step [OF nz False]
    have head: "interval_iunits st w = 7 \<longrightarrow> b"
    proof
      assume seven: "interval_iunits st w = 7"
      show b
      proof (rule ccontr)
        assume "\<not> b"
        with Cons.prems(2) have "pos = prevtime st" by simp
        with wr have "wait_returns (prevtime st) (timeout_samples st) w" by simp
        from edge_before_timeout_units [OF n this] seven show False by simp
      qed
    qed
    show ?thesis
    proof (cases "interval_iunits st w = 0")
      case True
      with step show ?thesis by (simp add: interval_yield_def)
    next
      case iu: False
      with Cons.prems step have "host_trace (adapted st w) (samplenum w) ws" by simp
      then have rest: "flush_guarded c (fst (decode_symbols_run (adapted st w) ws))" for c
        by (rule Cons.IH) (simp add: adapted_def)
      obtain ys r where run: "decode_symbols_run (adapted st w) ws = (ys, r)"
        by (cases "decode_symbols_run (adapted st w) ws")
      with rest have "flush_guarded c ys" for c by simp
      with head have "flush_guarded b (interval_yield st w @ ys)"
        by (simp add: interval_yield_def)
      with step iu run show ?thesis by simp
    qed
  qed
qed

text \<open>
  C10. In every run against the host in which the skip count
  \<open>int(5 * samplerate * timeunit)\<close> is positive at each wait, an inter-word space
  symbol (0,7) in the stream yielded by the classifier is directly preceded by a flush
  token: the stream before it is not empty and ends in \<open>None\<close>. The flush belongs to
  the same silence, since nothing else is yielded between it and the symbol.
\<close>

theorem interword_space_follows_flush:
  assumes "host_trace st (prevtime st) ws"
    and "fst (decode_symbols_run st ws) = pre @ Some (t0, t1, (0, 7)) # post"
  shows "pre \<noteq> [] \<and> last pre = None"
proof -
  from assms(1) have "flush_guarded False (fst (decode_symbols_run st ws))"
    by (rule run_flush_guarded) simp
  with assms(2) have "flush_guarded False (pre @ Some (t0, t1, (0, 7)) # post)" by simp
  from flush_guarded_split [OF this] show ?thesis by auto
qed

theorem interword_space_follows_flush_witness:
  "host_trace \<lparr>samplerate = 1, timeunit = 10, prevtime = 0\<rparr> 0
     [\<lparr>val = 0, samplenum = 50, matched0 = False, matched1 = True\<rparr>,
      \<lparr>val = 1, samplenum = 70, matched0 = True, matched1 = False\<rparr>] \<and>
   fst (decode_symbols_run \<lparr>samplerate = 1, timeunit = 10, prevtime = 0\<rparr>
     [\<lparr>val = 0, samplenum = 50, matched0 = False, matched1 = True\<rparr>,
      \<lparr>val = 1, samplenum = 70, matched0 = True, matched1 = False\<rparr>]) =
     [None] @ Some (0, 70, (0, 7)) # [] \<and>
   [None :: symbol_item] \<noteq> [] \<and> last [None :: symbol_item] = None"
proof -
  let ?st = "\<lparr>samplerate = 1, timeunit = 10, prevtime = 0\<rparr>"
  let ?ws = "[\<lparr>val = 0, samplenum = 50, matched0 = False, matched1 = True\<rparr>,
              \<lparr>val = 1, samplenum = 70, matched0 = True, matched1 = False\<rparr>]"
  have trace: "host_trace ?st (prevtime ?st) ?ws"
    by (simp add: timeout_samples_def py_int_def wait_returns_def decode_symbols_step_def
          py_round_def Let_def)
  have run: "fst (decode_symbols_run ?st ?ws) = [None] @ Some (0, 70, (0, 7)) # []"
    by (simp add: decode_symbols_step_def py_round_def Let_def dom_symbols)
  from interword_space_follows_flush [OF trace run] trace run show ?thesis by simp
qed

subsection \<open>Dit/dah text\<close>

text \<open>
  C7. For every tuple whose elements are all 1 or 3, \<open>encode_ditdah\<close> returns a string
  and \<open>decode_ditdah\<close> of that string returns the tuple.
\<close>

theorem decode_encode_ditdah:
  "set t \<subseteq> {1, 3} \<Longrightarrow> \<exists>s. encode_ditdah t = Inr s \<and> decode_ditdah s = Inr t"
  by (induction t) (auto simp: ditdah_chars_def ditdah_units_def)

theorem decode_encode_ditdah_witness:
  "set [1, 3, 3 :: int] \<subseteq> {1, 3} \<and>
   (\<exists>s. encode_ditdah [1, 3, 3] = Inr s \<and> decode_ditdah s = Inr [1, 3, 3])"
  using decode_encode_ditdah [of "[1, 3, 3]"] by simp

subsection \<open>Letter resolution\<close>

lemma encode_ditdah_dots_dashes:
  "set sq \<subseteq> {1, 3} \<Longrightarrow> encode_ditdah sq = Inr (dots_dashes sq)"
  by (induction sq) (auto simp: ditdah_chars_def dots_dashes_def)

lemma resolve_dit_dah:
  "set sq \<subseteq> {1, 3} \<Longrightarrow>
     resolve sq = Inr (case alphabet sq of None \<Rightarrow> dots_dashes sq | Some v \<Rightarrow> v)"
  by (simp add: resolve_def encode_ditdah_dots_dashes)

lemma alphabet_table:
  "alphabet = map_of (rev (map (\<lambda>(k, v). (map (\<lambda>c. if c = CHR ''-'' then 3 else 1) k, v)) alphabet_literal))"
  by (simp add: alphabet_def alphabet_literal_def ditdah_units_def)

lemma alphabet_text_nonempty: "alphabet sq = Some v \<Longrightarrow> v \<noteq> []"
  unfolding alphabet_table
  by (drule map_of_SomeD) (auto simp: alphabet_literal_def)

lemma resolve_nonempty:
  "sq \<noteq> [] \<Longrightarrow> resolve sq = Inr letter \<Longrightarrow> letter \<noteq> []"
  by (cases sq) (auto simp: resolve_def dest: alphabet_text_nonempty split: sum.splits option.splits)

subsection \<open>One pass of \<open>decode_morse\<close> and of \<open>decode\<close>\<close>

lemma mark_step:
  "decode_morse_step st (Some (t0, t1, (1, sunits))) =
     ([], Inr (st\<lparr>s0 := (if s0 st = None then Some t0 else s0 st), s1 := Some t1,
                   sequence := sequence st @ [sunits]\<rparr>))"
  by (simp add: decode_morse_step_def)

lemma short_space_step:
  "sval \<noteq> 1 \<Longrightarrow> \<not> 3 \<le> sunits \<Longrightarrow>
     decode_morse_step st (Some (t0, t1, (sval, sunits))) = ([], Inr st)"
  by (simp add: decode_morse_step_def)

lemma trigger_step_empty:
  "sequence st = [] \<Longrightarrow> sval \<noteq> 1 \<Longrightarrow>
     decode_morse_step st (Some (t0, t1, (sval, sunits))) = ([], Inr st)"
  "sequence st = [] \<Longrightarrow> decode_morse_step st None = ([None], Inr st)"
  by (simp_all add: decode_morse_step_def)

lemma trigger_step_letter:
  assumes "sequence st \<noteq> []" and "resolve (sequence st) = Inr letter"
  shows "sval \<noteq> 1 \<Longrightarrow> 3 \<le> sunits \<Longrightarrow>
           decode_morse_step st (Some (t0, t1, (sval, sunits))) =
             ([Some (s0 st, s1 st, letter)], Inr (st\<lparr>sequence := [], s0 := None, s1 := None\<rparr>))"
    and "decode_morse_step st None =
           ([Some (s0 st, s1 st, letter), None],
            Inr (st\<lparr>sequence := [], s0 := None, s1 := None\<rparr>))"
  using assms by (simp_all add: decode_morse_step_def)

lemma step_yields_classified:
  "\<forall>item \<in> set (fst (snd (decode_symbols_step st w))). classified item"
  by (simp add: decode_symbols_step_def Let_def classified_def)

lemma run_yields_classified:
  "\<forall>item \<in> set (fst (decode_symbols_run st ws)). classified item"
proof (induction ws arbitrary: st)
  case Nil
  then show ?case by simp
next
  case (Cons w ws)
  obtain anns ys r where step: "decode_symbols_step st w = (anns, ys, r)"
    by (cases "decode_symbols_step st w")
  with step_yields_classified [of st w] have ys: "\<forall>item \<in> set ys. classified item" by simp
  show ?case
  proof (cases r)
    case (Inl e)
    with step ys show ?thesis by simp
  next
    case (Inr st')
    obtain ys' r' where "decode_symbols_run st' ws = (ys', r')"
      by (cases "decode_symbols_run st' ws")
    with Cons.IH [of st'] step ys Inr show ?thesis by auto
  qed
qed

lemma classified_step_keeps_dit_dah:
  assumes "classified item" and "set (sequence st) \<subseteq> {1, 3}"
  shows "\<exists>ls st'. decode_morse_step st item = (ls, Inr st') \<and> set (sequence st') \<subseteq> {1, 3}"
proof (cases item)
  case None
  with assms(2) show ?thesis
    by (cases "sequence st = []")
       (simp_all add: decode_morse_step_def resolve_dit_dah)
next
  case (Some x)
  obtain t0 t1 sval sunits where x: "x = (t0, t1, (sval, sunits))"
    by (cases x) auto
  with Some assms(1) have key: "(sval, sunits) \<in> {(1, 1), (1, 3), (0, 1), (0, 3), (0, 7)}"
    by (simp add: classified_def dom_symbols)
  show ?thesis
  proof (cases "sval = 1")
    case True
    with key have "sunits = 1 \<or> sunits = 3" by auto
    with True Some x assms(2) show ?thesis by (auto simp: mark_step)
  next
    case False
    with Some x assms(2) show ?thesis
      by (cases "sequence st = []")
         (simp_all add: decode_morse_step_def resolve_dit_dah)
  qed
qed

lemma classified_run_keeps_dit_dah:
  "\<forall>item \<in> set items. classified item \<Longrightarrow> set (sequence st) \<subseteq> {1, 3} \<Longrightarrow>
     \<exists>st'. snd (decode_morse_run st items) = Inr st' \<and> set (sequence st') \<subseteq> {1, 3}"
proof (induction items arbitrary: st)
  case Nil
  then show ?case by simp
next
  case (Cons item items)
  from Cons.prems obtain ls st1 where step: "decode_morse_step st item = (ls, Inr st1)"
    and ok: "set (sequence st1) \<subseteq> {1, 3}"
    using classified_step_keeps_dit_dah [of item st] by auto
  from Cons.prems have "\<forall>item \<in> set items. classified item" by simp
  from Cons.IH [OF this ok] obtain st' where
    "snd (decode_morse_run st1 items) = Inr st'" "set (sequence st') \<subseteq> {1, 3}" by blast
  with step show ?case by (cases "decode_morse_run st1 items") auto
qed

text \<open>
  C6. Letter resolution of an accumulated dit/dah sequence never raises: it returns the
  character mapped by the alphabet table when the sequence is a key, and the literal
  rendering (1 as a dot, 3 as a dash) when it is not. The sequences that the letter
  grouper accumulates from anything the classifier yields hold only 1 and 3, and the
  grouper run on such a stream ends without an exception.
\<close>

theorem letter_resolution_total:
  "(set sq \<subseteq> {1, 3} \<longrightarrow>
      resolve sq = Inr (case alphabet sq of None \<Rightarrow> dots_dashes sq | Some v \<Rightarrow> v)) \<and>
   (\<exists>mst. snd (decode_morse_run decode_morse_init (fst (decode_symbols_run cst ws))) = Inr mst \<and>
      set (sequence mst) \<subseteq> {1, 3})"
proof -
  have "\<exists>mst. snd (decode_morse_run decode_morse_init (fst (decode_symbols_run cst ws))) = Inr mst
          \<and> set (sequence mst) \<subseteq> {1, 3}"
    by (rule classified_run_keeps_dit_dah)
       (simp_all add: run_yields_classified decode_morse_init_def)
  then show ?thesis by (simp add: resolve_dit_dah)
qed

theorem letter_resolution_total_witness:
  "set [1, 3 :: int] \<subseteq> {1, 3} \<and> resolve [1, 3] = Inr ''a'' \<and>
   set [3, 3, 3, 3 :: int] \<subseteq> {1, 3} \<and> resolve [3, 3, 3, 3] = Inr ''----''"
proof -
  have a: "alphabet [1, 3] = Some ''a''" and n: "alphabet [3, 3, 3, 3] = None"
    by (simp_all add: alphabet_table alphabet_literal_def)
  from letter_resolution_total [of "[1, 3]"] letter_resolution_total [of "[3, 3, 3, 3]"] a n
  show ?thesis by (simp add: dots_dashes_def)
qed


text \<open>
  C4. With a dit/dah sequence accumulated (elements 1 and 3), a space symbol of three
  or more units makes the letter grouper resolve the current letter and yield it, if
  there is one, and nothing else: no flush token is passed on. A flush token from
  upstream makes it do the same and then yield the flush token, after the letter.
\<close>

theorem gap_resolves_and_flush_passes:
  assumes "set (sequence st) \<subseteq> {1, 3}"
  shows "\<exists>letter. resolve (sequence st) = Inr letter \<and>
           (sval \<noteq> 1 \<and> 3 \<le> sunits \<longrightarrow>
              decode_morse_step st (Some (t0, t1, (sval, sunits))) =
                (if sequence st = [] then ([], Inr st)
                 else ([Some (s0 st, s1 st, letter)],
                       Inr (st\<lparr>sequence := [], s0 := None, s1 := None\<rparr>)))) \<and>
           decode_morse_step st None =
             (if sequence st = [] then ([None], Inr st)
              else ([Some (s0 st, s1 st, letter), None],
                    Inr (st\<lparr>sequence := [], s0 := None, s1 := None\<rparr>)))"
proof -
  from assms obtain letter where letter: "resolve (sequence st) = Inr letter"
    by (simp add: resolve_dit_dah)
  show ?thesis
  proof (cases "sequence st = []")
    case True
    with letter show ?thesis by (simp add: trigger_step_empty)
  next
    case False
    from trigger_step_letter [OF False letter] letter False show ?thesis by simp
  qed
qed

theorem gap_resolves_and_flush_passes_witness:
  "set (sequence \<lparr>sequence = [3], s0 = Some 0, s1 = Some 3\<rparr>) \<subseteq> {1, 3} \<and>
   decode_morse_step \<lparr>sequence = [3], s0 = Some 0, s1 = Some 3\<rparr> (Some (3, 6, (0, 3))) =
     ([Some (Some 0, Some 3, ''t'')], Inr \<lparr>sequence = [], s0 = None, s1 = None\<rparr>) \<and>
   decode_morse_step \<lparr>sequence = [3], s0 = Some 0, s1 = Some 3\<rparr> None =
     ([Some (Some 0, Some 3, ''t''), None], Inr \<lparr>sequence = [], s0 = None, s1 = None\<rparr>)"
proof -
  have t: "resolve [3] = Inr ''t''"
    by (simp add: resolve_def alphabet_table alphabet_literal_def ditdah_chars_def)
  from gap_resolves_and_flush_passes
         [where st = "\<lparr>sequence = [3], s0 = Some 0, s1 = Some 3\<rparr>"
            and sval = 0 and sunits = 3 and ?t0.0 = 3 and ?t1.0 = 6] t
  show ?thesis by simp
qed

lemma no_mark_run:
  "sequence st = [] \<Longrightarrow> \<forall>item \<in> set items. no_mark item \<Longrightarrow>
     \<exists>ls. decode_morse_run st items = (ls, Inr st) \<and> set ls \<subseteq> {None}"
proof (induction items)
  case Nil
  then show ?case by simp
next
  case (Cons item items)
  then obtain ls where rest: "decode_morse_run st items = (ls, Inr st)" "set ls \<subseteq> {None}"
    by auto
  show ?case
  proof (cases item)
    case None
    with Cons.prems(1) rest show ?thesis by (simp add: trigger_step_empty)
  next
    case (Some x)
    obtain t0 t1 sval sunits where "x = (t0, t1, (sval, sunits))" by (cases x) auto
    with Some Cons.prems rest show ?thesis
      by (simp add: no_mark_def trigger_step_empty)
  qed
qed

lemma flush_only_run:
  "word wst = [] \<Longrightarrow> set ls \<subseteq> {None} \<Longrightarrow> decode_run wst ls = ([], wst)"
  by (induction ls) (auto simp: decode_step_def)

lemma no_mark_group_run:
  assumes "\<forall>item \<in> set items. no_mark item"
  shows "group_run decode_morse_init decode_init items = ([], Inr decode_morse_init, decode_init)"
proof -
  from assms obtain ls where
    "decode_morse_run decode_morse_init items = (ls, Inr decode_morse_init)" "set ls \<subseteq> {None}"
    using no_mark_run [of decode_morse_init items] by (auto simp: decode_morse_init_def)
  then show ?thesis
    using flush_only_run [of decode_init ls] by (simp add: group_run_def decode_init_def)
qed

lemma timeouts_only_loop:
  assumes "samplerate cst \<noteq> 0" "timeunit cst \<noteq> 0"
  shows "\<forall>w \<in> set ws. matched1 w \<Longrightarrow>
     decode_loop (cst, decode_morse_init, decode_init) ws =
       ([], Inr (cst, decode_morse_init, decode_init))"
proof (induction ws)
  case Nil
  then show ?case by simp
next
  case (Cons w ws)
  then have "matched1 w" by simp
  with assms have "decode_symbols_step cst w = ([], [None], Inr cst)" by (rule timeout_step)
  then have "decode_iter (cst, decode_morse_init, decode_init) w =
               ([], Inr (cst, decode_morse_init, decode_init))"
    by (simp add: decode_iter_def decode_morse_step_def decode_morse_init_def
          decode_step_def decode_init_def)
  with Cons show ?case by simp
qed

text \<open>
  C5. A flush trigger (a flush token, or a space of three or more units) that arrives
  while the dit/dah sequence is empty yields no letter, and a flush token that arrives
  while the word buffer is empty puts no word annotation. In particular, from the
  initial state a stream without any mark, and a run of the whole decoder over
  timeouts only, put no annotation at all.
\<close>

theorem empty_buffers_emit_nothing:
  "(sequence mst = [] \<longrightarrow>
      decode_morse_step mst None = ([None], Inr mst) \<and>
      (sval \<noteq> 1 \<and> 3 \<le> sunits \<longrightarrow>
         decode_morse_step mst (Some (t0, t1, (sval, sunits))) = ([], Inr mst))) \<and>
   (word wst = [] \<longrightarrow> decode_step wst None = ([], wst)) \<and>
   ((\<forall>item \<in> set items. no_mark item) \<longrightarrow>
      group_run decode_morse_init decode_init items = ([], Inr decode_morse_init, decode_init)) \<and>
   (samplerate cst \<noteq> 0 \<and> timeunit cst \<noteq> 0 \<and> (\<forall>w \<in> set ws. matched1 w) \<longrightarrow>
      decode_loop (cst, decode_morse_init, decode_init) ws =
        ([], Inr (cst, decode_morse_init, decode_init)))"
  using no_mark_group_run [of items] timeouts_only_loop [of cst ws]
  by (simp add: trigger_step_empty decode_step_def)

theorem empty_buffers_emit_nothing_witness:
  "sequence decode_morse_init = [] \<and> word decode_init = [] \<and>
   decode_morse_step decode_morse_init None = ([None], Inr decode_morse_init) \<and>
   decode_morse_step decode_morse_init (Some (0, 70, (0, 7))) = ([], Inr decode_morse_init) \<and>
   decode_step decode_init None = ([], decode_init) \<and>
   group_run decode_morse_init decode_init [None, Some (0, 70, (0, 7)), None] =
     ([], Inr decode_morse_init, decode_init) \<and>
   decode_loop (\<lparr>samplerate = 1, timeunit = 10, prevtime = 0\<rparr>, decode_morse_init, decode_init)
     [\<lparr>val = 0, samplenum = 50, matched0 = False, matched1 = True\<rparr>,
      \<lparr>val = 0, samplenum = 100, matched0 = False, matched1 = True\<rparr>] =
     ([], Inr (\<lparr>samplerate = 1, timeunit = 10, prevtime = 0\<rparr>, decode_morse_init, decode_init))"
  using empty_buffers_emit_nothing
          [where mst = decode_morse_init and wst = decode_init and sval = 0 and sunits = 7
             and ?t0.0 = 0 and ?t1.0 = 70
             and items = "[None, Some (0, 70, (0, 7)), None]"
             and cst = "\<lparr>samplerate = 1, timeunit = 10, prevtime = 0\<rparr>"
             and ws = "[\<lparr>val = 0, samplenum = 50, matched0 = False, matched1 = True\<rparr>,
                        \<lparr>val = 0, samplenum = 100, matched0 = False, matched1 = True\<rparr>]"]
  by (simp add: decode_morse_init_def decode_init_def no_mark_def)

subsection \<open>Letters into words\<close>

lemma decode_morse_run_append:
  "decode_morse_run st (xs @ ys) =
     (case decode_morse_run st xs of
        (ls, Inl e) \<Rightarrow> (ls, Inl e)
      | (ls, Inr st') \<Rightarrow> (case decode_morse_run st' ys of (ls', r) \<Rightarrow> (ls @ ls', r)))"
proof (induction xs arbitrary: st)
  case Nil
  then show ?case by (simp split: prod.splits)
next
  case (Cons x xs)
  obtain ls r where step: "decode_morse_step st x = (ls, r)"
    by (cases "decode_morse_step st x")
  show ?case
  proof (cases r)
    case (Inl e)
    with step show ?thesis by simp
  next
    case (Inr st1)
    with step Cons.IH [of st1] show ?thesis
      by (simp split: prod.splits sum.splits)
  qed
qed

lemma body_units_dit_dah: "letter_body items \<Longrightarrow> set (body_units items) \<subseteq> {1, 3}"
proof (induction items rule: body_units.induct)
  case 1
  then show ?case by simp
next
  case (2 items)
  then show ?case by (simp add: letter_body_def)
next
  case (3 t0 t1 sval sunits items)
  then show ?case by (auto simp: letter_body_def split: if_splits)
qed

lemma body_run:
  "letter_body items \<Longrightarrow>
     \<exists>st'. decode_morse_run st items = ([], Inr st') \<and>
       sequence st' = sequence st @ body_units items"
proof (induction items arbitrary: st rule: body_units.induct)
  case 1
  then show ?case by simp
next
  case (2 items)
  then show ?case by (simp add: letter_body_def)
next
  case (3 t0 t1 sval sunits items)
  from "3.prems" have rest: "letter_body items"
    and head: "if sval = 1 then sunits = 1 \<or> sunits = 3 else sunits < 3"
    by (simp_all add: letter_body_def)
  show ?case
  proof (cases "sval = 1")
    case True
    let ?st1 = "st\<lparr>s0 := (if s0 st = None then Some t0 else s0 st), s1 := Some t1,
                  sequence := sequence st @ [sunits]\<rparr>"
    from "3.IH"(1) [OF True rest, of ?st1] obtain st' where
      "decode_morse_run ?st1 items = ([], Inr st')"
      "sequence st' = sequence ?st1 @ body_units items" by blast
    with True show ?thesis by (simp add: mark_step)
  next
    case False
    from "3.IH"(2) [OF False rest, of st] obtain st' where
      "decode_morse_run st items = ([], Inr st')"
      "sequence st' = sequence st @ body_units items" by blast
    with False head show ?thesis by (simp add: short_space_step)
  qed
qed

lemma letter_then_trigger:
  assumes body: "letter_body items" and units: "body_units items \<noteq> []"
    and trig: "trigger = None \<or> trigger = Some (t0, t1, (0, 3))"
  shows "\<exists>a b letter. resolve (body_units items) = Inr letter \<and> letter \<noteq> [] \<and>
           decode_morse_run decode_morse_init (items @ [trigger]) =
             (Some (a, b, letter) # (if trigger = None then [None] else []),
              Inr decode_morse_init)"
proof -
  from body_run [OF body, of decode_morse_init] obtain st' where
    run: "decode_morse_run decode_morse_init items = ([], Inr st')"
    and sq: "sequence st' = body_units items"
    by (auto simp: decode_morse_init_def)
  from body_units_dit_dah [OF body] obtain letter where
    letter: "resolve (body_units items) = Inr letter"
    by (auto simp: resolve_dit_dah)
  with units have ne: "letter \<noteq> []" by (rule resolve_nonempty)
  from units sq have seq: "sequence st' \<noteq> []" by simp
  from letter sq have res: "resolve (sequence st') = Inr letter" by simp
  have reset: "st'\<lparr>sequence := [], s0 := None, s1 := None\<rparr> = decode_morse_init"
    by (simp add: decode_morse_init_def)
  from trig have "decode_morse_step st' trigger =
      (Some (s0 st', s1 st', letter) # (if trigger = None then [None] else []),
       Inr decode_morse_init)"
    using trigger_step_letter [OF seq res] reset by auto
  with run letter ne show ?thesis
    by (simp add: decode_morse_run_append)
qed

lemma word_of_two_letters:
  assumes "l1 \<noteq> []"
  shows "\<exists>s. decode_run wst [Some (a, b, l1), Some (c, d, l2), None] =
           ([\<lparr>ss = a, es = b, cls = 3, payload = Text l1\<rparr>,
             \<lparr>ss = c, es = d, cls = 3, payload = Text l2\<rparr>,
             \<lparr>ss = s, es = d, cls = 4, payload = Text (word wst @ l1 @ l2)\<rparr>],
            decode_init)"
  using assms by (cases wst) (simp add: decode_step_def decode_init_def)

lemma word_annotation_iff:
  "(\<exists>a \<in> set (fst (decode_step wst item)). cls a = 4) \<longleftrightarrow> item = None \<and> word wst \<noteq> []"
  by (cases item) (auto simp: decode_step_def)

lemma flush_passed_iff:
  assumes "set (sequence mst) \<subseteq> {1, 3}"
  shows "None \<in> set (fst (decode_morse_step mst sitem)) \<longleftrightarrow> sitem = None"
proof (cases sitem)
  case None
  with assms show ?thesis
    by (cases "sequence mst = []") (simp_all add: decode_morse_step_def resolve_dit_dah)
next
  case (Some x)
  obtain t0 t1 sval sunits where "x = (t0, t1, (sval, sunits))" by (cases x) auto
  with Some assms show ?thesis
    by (cases "sequence mst = []") (simp_all add: decode_morse_step_def resolve_dit_dah)
qed

lemma decode_run_append:
  "decode_run wst (xs @ ys) =
     (case decode_run wst xs of
        (anns, wst') \<Rightarrow> (case decode_run wst' ys of (anns', wst'') \<Rightarrow> (anns @ anns', wst'')))"
  by (induction xs arbitrary: wst) (simp_all split: prod.splits)

lemma group_run_append:
  assumes "group_run mst wst xs = (anns, Inr mst', wst')"
  shows "group_run mst wst (xs @ ys) =
           (case group_run mst' wst' ys of (anns', r, wst'') \<Rightarrow> (anns @ anns', r, wst''))"
  using assms
  by (auto simp: group_run_def decode_morse_run_append decode_run_append split: prod.splits)

lemma classified_group_run:
  assumes "\<forall>item \<in> set items. classified item" and "set (sequence mst) \<subseteq> {1, 3}"
  shows "\<exists>anns mst' wst'. group_run mst wst items = (anns, Inr mst', wst') \<and>
           set (sequence mst') \<subseteq> {1, 3}"
proof -
  from classified_run_keeps_dit_dah [OF assms] obtain mst' where
    "snd (decode_morse_run mst items) = Inr mst'" "set (sequence mst') \<subseteq> {1, 3}" by blast
  then show ?thesis
    by (cases "decode_morse_run mst items") (auto simp: group_run_def split: prod.splits)
qed

lemma flush_group_step:
  assumes "set (sequence mst) \<subseteq> {1, 3}"
  shows "\<exists>anns mst' wst'. group_run mst wst [None] = (anns, Inr mst', wst') \<and>
           sequence mst' = [] \<and> word wst' = [] \<and>
           ((\<exists>a \<in> set anns. cls a = 4) \<longleftrightarrow> sequence mst \<noteq> [] \<or> word wst \<noteq> [])"
proof (cases "sequence mst = []")
  case True
  then show ?thesis
    by (simp add: group_run_def trigger_step_empty decode_step_def)
next
  case False
  from assms obtain letter where letter: "resolve (sequence mst) = Inr letter"
    by (simp add: resolve_dit_dah)
  with False have "letter \<noteq> []" by (rule resolve_nonempty)
  with trigger_step_letter(2) [OF False letter] False show ?thesis
    by (simp add: group_run_def decode_step_def)
qed

lemma symbol_group_step:
  assumes "classified (Some (t0, t1, symbol))" and "set (sequence mst) \<subseteq> {1, 3}"
  shows "\<exists>anns mst' wst' l. group_run mst wst [Some (t0, t1, symbol)] = (anns, Inr mst', wst') \<and>
           \<not> (\<exists>a \<in> set anns. cls a = 4) \<and> word wst' = word wst @ l"
proof -
  obtain sval sunits where symbol: "symbol = (sval, sunits)" by (cases symbol)
  show ?thesis
  proof (cases "sval \<noteq> 1 \<and> 3 \<le> sunits \<and> sequence mst \<noteq> []")
    case True
    from assms(2) obtain letter where letter: "resolve (sequence mst) = Inr letter"
      by (simp add: resolve_dit_dah)
    from True trigger_step_letter(1) [OF _ letter, of sval sunits t0 t1] symbol show ?thesis
      by (simp add: group_run_def decode_step_def)
  next
    case False
    then consider "sval = 1" | "sval \<noteq> 1" "\<not> 3 \<le> sunits" | "sval \<noteq> 1" "sequence mst = []"
      by blast
    then show ?thesis
    proof cases
      case 1
      with symbol show ?thesis by (simp add: group_run_def mark_step)
    next
      case 2
      with symbol show ?thesis by (simp add: group_run_def short_space_step)
    next
      case 3
      with symbol show ?thesis by (simp add: group_run_def trigger_step_empty)
    qed
  qed
qed

lemma gap_symbol_after_flush:
  "sequence mst = [] \<Longrightarrow>
     group_run mst wst [Some (t0, t1, (0, 7))] = ([], Inr mst, wst)"
  by (simp add: group_run_def trigger_step_empty)

text \<open>
  C2. Two letters separated only by a 3-unit inter-letter space symbol end up in the
  same word: fed the items of a first letter, the space (0,3), the items of a second
  letter and a flush token, the groupers put the two letter annotations and then one
  word annotation whose text is the word buffer followed by both letters. A word is
  closed (word annotation put and word buffer cleared) exactly at a word gap. The word
  grouper puts a word annotation exactly when it observes a flush token with a
  non-empty word buffer, and clears the buffer then; the letter grouper passes a flush
  token on exactly when it receives one. In every run of the classifier against the
  host, with the groupers fed what it yields from the start: the item at any position
  makes them put a word annotation exactly when it is a flush token and a letter or
  word is pending; after a flush token and after a 7-unit inter-word space symbol
  nothing is pending and the word buffer is empty (the flush of the same silence has
  closed the word); after any other item the word buffer is only extended.
\<close>

theorem letter_gap_joins_word_gap_closes:
  assumes "letter_body xs" and "body_units xs \<noteq> []"
    and "letter_body ys" and "body_units ys \<noteq> []"
    and "host_trace st (prevtime st) ws"
    and "fst (decode_symbols_run st ws) = pre @ item # post"
  shows "(\<exists>l1 l2 a1 a2 aw.
            resolve (body_units xs) = Inr l1 \<and> resolve (body_units ys) = Inr l2 \<and>
            group_run decode_morse_init wst (xs @ [Some (t0, t1, (0, 3))] @ ys @ [None]) =
              ([a1, a2, aw], Inr decode_morse_init, decode_init) \<and>
            cls a1 = 3 \<and> payload a1 = Text l1 \<and> cls a2 = 3 \<and> payload a2 = Text l2 \<and>
            cls aw = 4 \<and> payload aw = Text (word wst @ l1 @ l2)) \<and>
         ((\<exists>a \<in> set (fst (decode_step wst litem)). cls a = 4) \<longleftrightarrow>
            litem = None \<and> word wst \<noteq> []) \<and>
         (word wst \<noteq> [] \<longrightarrow>
            decode_step wst None =
              ([\<lparr>ss = word_s0 wst, es = word_s1 wst, cls = 4, payload = Text (word wst)\<rparr>],
               wst\<lparr>word := [], word_s0 := None, word_s1 := None\<rparr>)) \<and>
         (set (sequence mst) \<subseteq> {1, 3} \<longrightarrow>
            (None \<in> set (fst (decode_morse_step mst sitem)) \<longleftrightarrow> sitem = None)) \<and>
         (\<exists>anns m w anns' m' w'.
            group_run decode_morse_init decode_init pre = (anns, Inr m, w) \<and>
            group_run m w [item] = (anns', Inr m', w') \<and>
            ((\<exists>a \<in> set anns'. cls a = 4) \<longleftrightarrow>
               item = None \<and> (sequence m \<noteq> [] \<or> word w \<noteq> [])) \<and>
            (word_gap item \<longrightarrow> sequence m' = [] \<and> word w' = []) \<and>
            (\<not> word_gap item \<longrightarrow> (\<exists>l. word w' = word w @ l)))"
proof -
  from letter_then_trigger [OF assms(1,2), of "Some (t0, t1, (0, 3))" t0 t1]
  obtain a b l1 where l1: "resolve (body_units xs) = Inr l1" "l1 \<noteq> []"
    and first: "decode_morse_run decode_morse_init (xs @ [Some (t0, t1, (0, 3))]) =
                  ([Some (a, b, l1)], Inr decode_morse_init)"
    by auto
  from letter_then_trigger [OF assms(3,4), of None]
  obtain c d l2 where l2: "resolve (body_units ys) = Inr l2"
    and second: "decode_morse_run decode_morse_init (ys @ [None]) =
                   ([Some (c, d, l2), None], Inr decode_morse_init)"
    by auto
  have "decode_morse_run decode_morse_init ((xs @ [Some (t0, t1, (0, 3))]) @ (ys @ [None])) =
          (case decode_morse_run decode_morse_init (xs @ [Some (t0, t1, (0, 3))]) of
             (ls, Inl e) \<Rightarrow> (ls, Inl e)
           | (ls, Inr st') \<Rightarrow>
               (case decode_morse_run st' (ys @ [None]) of (ls', r) \<Rightarrow> (ls @ ls', r)))"
    by (rule decode_morse_run_append)
  also have "\<dots> = ([Some (a, b, l1), Some (c, d, l2), None], Inr decode_morse_init)"
    using first second by simp
  finally have letters:
    "decode_morse_run decode_morse_init (xs @ [Some (t0, t1, (0, 3))] @ ys @ [None]) =
       ([Some (a, b, l1), Some (c, d, l2), None], Inr decode_morse_init)"
    by simp
  from word_of_two_letters [OF l1(2), of wst a b c d l2] obtain s where
    "decode_run wst [Some (a, b, l1), Some (c, d, l2), None] =
       ([\<lparr>ss = a, es = b, cls = 3, payload = Text l1\<rparr>,
         \<lparr>ss = c, es = d, cls = 3, payload = Text l2\<rparr>,
         \<lparr>ss = s, es = d, cls = 4, payload = Text (word wst @ l1 @ l2)\<rparr>],
        decode_init)"
    by blast
  with letters have "group_run decode_morse_init wst (xs @ [Some (t0, t1, (0, 3))] @ ys @ [None]) =
          ([\<lparr>ss = a, es = b, cls = 3, payload = Text l1\<rparr>,
            \<lparr>ss = c, es = d, cls = 3, payload = Text l2\<rparr>,
            \<lparr>ss = s, es = d, cls = 4, payload = Text (word wst @ l1 @ l2)\<rparr>],
           Inr decode_morse_init, decode_init)"
    by (simp add: group_run_def)
  with l1 l2 have joined: "\<exists>l1 l2 a1 a2 aw.
            resolve (body_units xs) = Inr l1 \<and> resolve (body_units ys) = Inr l2 \<and>
            group_run decode_morse_init wst (xs @ [Some (t0, t1, (0, 3))] @ ys @ [None]) =
              ([a1, a2, aw], Inr decode_morse_init, decode_init) \<and>
            cls a1 = 3 \<and> payload a1 = Text l1 \<and> cls a2 = 3 \<and> payload a2 = Text l2 \<and>
            cls aw = 4 \<and> payload aw = Text (word wst @ l1 @ l2)"
    by (intro exI [of _ l1] exI [of _ l2]
          exI [of _ "\<lparr>ss = a, es = b, cls = 3, payload = Text l1\<rparr>"]
          exI [of _ "\<lparr>ss = c, es = d, cls = 3, payload = Text l2\<rparr>"]
          exI [of _ "\<lparr>ss = s, es = d, cls = 4, payload = Text (word wst @ l1 @ l2)\<rparr>"])
       simp
  have closed: "word wst \<noteq> [] \<longrightarrow>
            decode_step wst None =
              ([\<lparr>ss = word_s0 wst, es = word_s1 wst, cls = 4, payload = Text (word wst)\<rparr>],
               wst\<lparr>word := [], word_s0 := None, word_s1 := None\<rparr>)"
    by (simp add: decode_step_def)
  have passed: "set (sequence mst) \<subseteq> {1, 3} \<longrightarrow>
            (None \<in> set (fst (decode_morse_step mst sitem)) \<longleftrightarrow> sitem = None)"
    using flush_passed_iff [of mst sitem] by blast
  have run: "\<exists>anns m w anns' m' w'.
            group_run decode_morse_init decode_init pre = (anns, Inr m, w) \<and>
            group_run m w [item] = (anns', Inr m', w') \<and>
            ((\<exists>a \<in> set anns'. cls a = 4) \<longleftrightarrow>
               item = None \<and> (sequence m \<noteq> [] \<or> word w \<noteq> [])) \<and>
            (word_gap item \<longrightarrow> sequence m' = [] \<and> word w' = []) \<and>
            (\<not> word_gap item \<longrightarrow> (\<exists>l. word w' = word w @ l))"
  proof -
    have init: "set (sequence decode_morse_init) \<subseteq> {1, 3}"
      by (simp add: decode_morse_init_def)
    from run_yields_classified [of st ws] assms(6)
    have cl: "\<forall>x \<in> set pre. classified x" "classified item" by simp_all
    from assms(5) have "flush_guarded False (fst (decode_symbols_run st ws))"
      by (rule run_flush_guarded) simp
    with assms(6) have guarded: "flush_guarded False (pre @ item # post)" by simp
    from classified_group_run [OF cl(1) init, of decode_init] obtain anns m w where
      pre: "group_run decode_morse_init decode_init pre = (anns, Inr m, w)"
      and m: "set (sequence m) \<subseteq> {1, 3}" by blast
    show ?thesis
    proof (cases item)
      case None
      from flush_group_step [OF m, of w] None pre show ?thesis
        by (auto simp: word_gap_def)
    next
      case (Some x)
      obtain t0 t1 symbol where x: "x = (t0, t1, symbol)" by (cases x)
      show ?thesis
      proof (cases "symbol = (0, 7)")
        case True
        with guarded Some x have "pre \<noteq> [] \<and> last pre = None"
          using flush_guarded_split [of False pre t0 t1 post] by simp
        then have split: "pre = butlast pre @ [None]"
          using append_butlast_last_id [of pre] by simp
        from cl(1) have "\<forall>x \<in> set (butlast pre). classified x"
          by (auto dest: in_set_butlastD)
        from classified_group_run [OF this init, of decode_init] obtain a0 m0 w0 where
          before: "group_run decode_morse_init decode_init (butlast pre) = (a0, Inr m0, w0)"
          and m0: "set (sequence m0) \<subseteq> {1, 3}" by blast
        from flush_group_step [OF m0, of w0] obtain a1 m1 w1 where
          flush: "group_run m0 w0 [None] = (a1, Inr m1, w1)"
          and empty: "sequence m1 = []" "word w1 = []" by blast
        from group_run_append [OF before, of "[None]"] flush
        have "group_run decode_morse_init decode_init (butlast pre @ [None]) =
                (a0 @ a1, Inr m1, w1)" by simp
        with split pre have "m = m1" "w = w1" by simp_all
        with empty have "sequence m = []" "word w = []" by simp_all
        with gap_symbol_after_flush [of m w t0 t1] pre Some x True show ?thesis
          by (auto simp: word_gap_def)
      next
        case False
        from cl(2) Some x have "classified (Some (t0, t1, symbol))" by simp
        from symbol_group_step [OF this m, of w] pre Some x False show ?thesis
          by (auto simp: word_gap_def)
      qed
    qed
  qed
  from joined word_annotation_iff [of wst litem] closed passed run
  show ?thesis by blast
qed

theorem letter_gap_joins_word_gap_closes_witness:
  "letter_body [Some (0, 1, (1, 1))] \<and> body_units [Some (0, 1, (1, 1))] \<noteq> [] \<and>
   letter_body [Some (4, 7, (1, 3))] \<and> body_units [Some (4, 7, (1, 3))] \<noteq> [] \<and>
   host_trace \<lparr>samplerate = 1, timeunit = 10, prevtime = 0\<rparr> 0
     [\<lparr>val = 0, samplenum = 10, matched0 = True, matched1 = False\<rparr>,
      \<lparr>val = 0, samplenum = 60, matched0 = False, matched1 = True\<rparr>,
      \<lparr>val = 1, samplenum = 80, matched0 = True, matched1 = False\<rparr>] \<and>
   fst (decode_symbols_run \<lparr>samplerate = 1, timeunit = 10, prevtime = 0\<rparr>
     [\<lparr>val = 0, samplenum = 10, matched0 = True, matched1 = False\<rparr>,
      \<lparr>val = 0, samplenum = 60, matched0 = False, matched1 = True\<rparr>,
      \<lparr>val = 1, samplenum = 80, matched0 = True, matched1 = False\<rparr>]) =
     [Some (0, 10, (1, 1)), None] @ Some (10, 80, (0, 7)) # [] \<and>
   (\<exists>a1 a2 aw.
      group_run decode_morse_init decode_init
        ([Some (0, 1, (1, 1))] @ [Some (1, 4, (0, 3))] @ [Some (4, 7, (1, 3))] @ [None]) =
        ([a1, a2, aw], Inr decode_morse_init, decode_init) \<and>
      payload a1 = Text ''e'' \<and> payload a2 = Text ''t'' \<and>
      cls aw = 4 \<and> payload aw = Text ''et'') \<and>
   \<not> (\<exists>a \<in> set (fst (decode_step decode_init None)). cls a = 4) \<and>
   group_run decode_morse_init decode_init [Some (0, 10, (1, 1)), None] =
     ([\<lparr>ss = Some 0, es = Some 10, cls = 3, payload = Text ''e''\<rparr>,
       \<lparr>ss = Some 0, es = Some 10, cls = 4, payload = Text ''e''\<rparr>],
      Inr decode_morse_init, decode_init) \<and>
   word_gap (Some (10, 80, (0, 7))) \<and>
   (\<exists>anns' m' w'.
      group_run decode_morse_init decode_init [Some (10, 80, (0, 7))] = (anns', Inr m', w') \<and>
      \<not> (\<exists>a \<in> set anns'. cls a = 4) \<and> sequence m' = [] \<and> word w' = [])"
proof -
  let ?st = "\<lparr>samplerate = 1, timeunit = 10, prevtime = 0\<rparr>"
  let ?ws = "[\<lparr>val = 0, samplenum = 10, matched0 = True, matched1 = False\<rparr>,
              \<lparr>val = 0, samplenum = 60, matched0 = False, matched1 = True\<rparr>,
              \<lparr>val = 1, samplenum = 80, matched0 = True, matched1 = False\<rparr>]"
  have bodies: "letter_body [Some (0, 1, (1, 1))]" "body_units [Some (0, 1, (1, 1))] \<noteq> []"
    "letter_body [Some (4, 7, (1, 3))]" "body_units [Some (4, 7, (1, 3))] \<noteq> []"
    by (simp_all add: letter_body_def)
  have trace: "host_trace ?st (prevtime ?st) ?ws"
    by (simp add: timeout_samples_def py_int_def wait_returns_def decode_symbols_step_def
          py_round_def Let_def)
  have run: "fst (decode_symbols_run ?st ?ws) =
               [Some (0, 10, (1, 1)), None] @ Some (10, 80, (0, 7)) # []"
    by (simp add: decode_symbols_step_def py_round_def Let_def dom_symbols)
  have e: "resolve [1] = Inr ''e''" and t: "resolve [3] = Inr ''t''"
    by (simp_all add: resolve_def alphabet_table alphabet_literal_def ditdah_chars_def)
  have pre: "group_run decode_morse_init decode_init [Some (0, 10, (1, 1)), None] =
     ([\<lparr>ss = Some 0, es = Some 10, cls = 3, payload = Text ''e''\<rparr>,
       \<lparr>ss = Some 0, es = Some 10, cls = 4, payload = Text ''e''\<rparr>],
      Inr decode_morse_init, decode_init)"
    by (simp add: group_run_def decode_morse_step_def decode_morse_init_def e
          decode_step_def decode_init_def)
  have gap: "word_gap (Some (10, 80, (0, 7)))" by (simp add: word_gap_def)
  from letter_gap_joins_word_gap_closes
         [OF bodies trace run, where wst = decode_init and ?t0.0 = 1 and ?t1.0 = 4
            and litem = None and mst = decode_morse_init and sitem = None]
       bodies trace run e t pre gap
  show ?thesis by (auto simp: decode_init_def)
qed

subsection \<open>The time unit stays positive\<close>

lemma py_round_near: "\<bar>x - of_int (py_round x)\<bar> \<le> 1 / 2"
  unfolding py_round_def Let_def by (auto simp: abs_le_iff)

text \<open>
  A positive time unit stays positive: one adaptation moves it by at most one percent,
  since \<open>new = old * (1 + (units - iunits) / 50)\<close> and rounding is off by at most 1/2.
\<close>

lemma adapted_timeunit_positive:
  assumes tu: "0 < timeunit st" and iu: "interval_iunits st w \<noteq> 0"
  shows "0 < timeunit (adapted st w)"
proof -
  define u where "u = interval_units st w"
  define k where "k = (of_int (interval_iunits st w) :: real)"
  from iu have k: "k \<noteq> 0" by (simp add: k_def)
  from tu have dt: "interval_dt st w = u * timeunit st"
    by (simp add: u_def interval_units_def)
  have "\<bar>u - k\<bar> \<le> 1 / 2"
    using py_round_near [of u] by (simp add: u_def k_def interval_iunits_def)
  then have near: "- (1 / 2) \<le> u - k" by linarith
  have "timeunit (adapted st w) = timeunit st + (u * timeunit st / k - timeunit st) * (2 / 100) * k"
    by (simp add: adapted_def dt k_def)
  also have "\<dots> = timeunit st * (1 + (u - k) / 50)"
    using k by (simp add: field_simps)
  finally have eq: "timeunit (adapted st w) = timeunit st * (1 + (u - k) / 50)" .
  from near have "0 < 1 + (u - k) / 50" by (simp add: field_simps)
  with tu eq show ?thesis by simp
qed

end
